theory Spec2Isabelle
  imports Main
begin

section \<open>Data model of package env\<close>

text \<open>
  The Go structs become records. A Go \<open>map[string]string\<close> that the code ranges over
  (\<open>EnvFragment.Env\<close>) is an association list: the list order is the order in which one
  \<open>range\<close> visits the entries, and a Go map holds every key once (\<open>env_ok\<close>).
  The two maps of the manager that are only indexed (\<open>merged\<close>, \<open>keySources\<close>) are partial
  functions, wrapped in \<open>option\<close> because the zero value of a Go map is \<open>nil\<close> and
  \<open>SortAndMerge\<close> tests for it. \<open>Priority\<close> is a Go \<open>int\<close>; the code only compares it,
  so no wrap-around can occur and it is an \<open>int\<close> here. \<open>time.Time\<close> is a number of
  seconds; the clock, the RFC3339 formatter and parser, the regular-expression compiler,
  the YAML decoder and the file system are libraries outside the package and enter the
  model as parameters.
\<close>

record Script =
  Sh :: string
  Data :: string

record EnvFragment =
  Name :: string
  Priority :: int
  Env :: "(string \<times> string) list"
  Script :: "Script list"
  Source :: string

type_synonym Time = int

record EnvManager =
  fragments :: "EnvFragment list"
  merged :: "(string \<rightharpoonup> string) option"
  keySources :: "(string \<rightharpoonup> string list) option"
  sorted :: bool
  ctime :: Time

record SearchResult =
  FragmentName :: string
  Key :: string
  Value :: string

record dumpStruct =
  Sorted :: bool
  CTime :: string
  Fragments :: "EnvFragment list"

datatype error =
    EmptyName
  | PriorityOutOfRange
  | NotMerged
  | InvalidPattern
  | ReadFailed
  | ParseFailed
  | ValidationFailed error
  | CreateFailed
  | WriteFailed

text \<open>The zero value \<open>&EnvManager{}\<close> that the callers start from.\<close>

definition new_manager :: EnvManager where
  "new_manager = \<lparr>fragments = [], merged = None, keySources = None, sorted = False, ctime = 0\<rparr>"

text \<open>Reading a Go map: a \<open>nil\<close> map reads like an empty one, a missing key gives the
  zero value of the element type.\<close>

definition merged_at :: "EnvManager \<Rightarrow> string \<rightharpoonup> string" where
  "merged_at e k = (case merged e of None \<Rightarrow> None | Some m \<Rightarrow> m k)"

definition keySources_at :: "EnvManager \<Rightarrow> string \<rightharpoonup> string list" where
  "keySources_at e k = (case keySources e of None \<Rightarrow> None | Some ks \<Rightarrow> ks k)"

definition int_at :: "(string \<rightharpoonup> int) \<Rightarrow> string \<Rightarrow> int" where
  "int_at m k = (case m k of None \<Rightarrow> 0 | Some n \<Rightarrow> n)"

definition names_at :: "(string \<rightharpoonup> string list) \<Rightarrow> string \<Rightarrow> string list" where
  "names_at ks k = (case ks k of None \<Rightarrow> [] | Some ns \<Rightarrow> ns)"

definition env_ok :: "EnvFragment \<Rightarrow> bool" where
  "env_ok f = distinct (map fst (Env f))"

definition has_key :: "string \<Rightarrow> EnvFragment \<Rightarrow> bool" where
  "has_key k f = (k \<in> fst ` set (Env f))"

section \<open>validateFragment\<close>

text \<open>
  The package-level tables \<open>SystemEnv\<close> and \<open>InnerComponentEnv\<close> are created empty and
  filled by code outside the package, so they are parameters. A name counts as a system
  (internal) name when its table entry is positive.
\<close>

definition validateFragment ::
  "(string \<rightharpoonup> int) \<Rightarrow> (string \<rightharpoonup> int) \<Rightarrow> EnvFragment \<Rightarrow> error option" where
  "validateFragment SystemEnv InnerComponentEnv frag =
     (if Name frag = [] then Some EmptyName
      else if int_at SystemEnv (Name frag) > 0 then
        (if Priority frag > 19 then Some PriorityOutOfRange else None)
      else if int_at InnerComponentEnv (Name frag) > 0 then
        (if Priority frag < 20 \<or> Priority frag > 99 then Some PriorityOutOfRange else None)
      else
        (if Priority frag < 100 then Some PriorityOutOfRange else None))"

section \<open>FeedFile\<close>

text \<open>
  \<open>os.ReadFile\<close> either fails or gives the data; the YAML decoder then yields one outcome
  per document, and end of file after the last one. A file is therefore \<open>None\<close>
  (unreadable) or the list of decoding outcomes. The manager is mutated in place, so the
  model returns the manager as it stands when the function returns, next to the error.
\<close>

datatype decoded = Decoded EnvFragment | DecodeError

fun feed_docs ::
  "(string \<rightharpoonup> int) \<Rightarrow> (string \<rightharpoonup> int) \<Rightarrow> string \<Rightarrow> decoded list \<Rightarrow> EnvManager
     \<Rightarrow> error option \<times> EnvManager" where
  "feed_docs S I fpath [] e = (None, e)"
| "feed_docs S I fpath (DecodeError # ds) e = (Some ParseFailed, e)"
| "feed_docs S I fpath (Decoded frag0 # ds) e =
     (let frag = frag0\<lparr>Source := fpath\<rparr> in
      case validateFragment S I frag of
        Some err \<Rightarrow> (Some (ValidationFailed err), e)
      | None \<Rightarrow> feed_docs S I fpath ds (e\<lparr>fragments := fragments e @ [frag]\<rparr>))"

definition FeedFile ::
  "(string \<rightharpoonup> int) \<Rightarrow> (string \<rightharpoonup> int) \<Rightarrow> string \<Rightarrow> decoded list option \<Rightarrow> EnvManager
     \<Rightarrow> error option \<times> EnvManager" where
  "FeedFile S I fpath file e =
     (case file of
        None \<Rightarrow> (Some ReadFailed, e)
      | Some docs \<Rightarrow> feed_docs S I fpath docs e)"

section \<open>SortAndMerge\<close>

text \<open>
  \<open>sort.SliceStable\<close> with the closure \<open>less\<close>: a stable sort, written as the insertion
  sort that puts an element in front of the first element that is not less than it.
\<close>

fun insert_stable :: "('a \<Rightarrow> 'a \<Rightarrow> bool) \<Rightarrow> 'a \<Rightarrow> 'a list \<Rightarrow> 'a list" where
  "insert_stable lt x [] = [x]"
| "insert_stable lt x (y # ys) =
     (if lt y x then y # insert_stable lt x ys else x # y # ys)"

definition SliceStable :: "('a \<Rightarrow> 'a \<Rightarrow> bool) \<Rightarrow> 'a list \<Rightarrow> 'a list" where
  "SliceStable lt xs = foldr (insert_stable lt) xs []"

definition priority_less :: "EnvFragment \<Rightarrow> EnvFragment \<Rightarrow> bool" where
  "priority_less a b = (Priority a < Priority b)"

text \<open>The inner loop \<open>for k, v := range frag.Env\<close> and the outer loop over the fragments.
  \<open>append(e.keySources[k], frag.Name)\<close> reads a missing key as the empty slice.\<close>

fun merge_env ::
  "string \<Rightarrow> (string \<times> string) list \<Rightarrow> (string \<rightharpoonup> string) \<times> (string \<rightharpoonup> string list)
     \<Rightarrow> (string \<rightharpoonup> string) \<times> (string \<rightharpoonup> string list)" where
  "merge_env name [] acc = acc"
| "merge_env name ((k, v) # kvs) (m, ks) =
     merge_env name kvs (m(k \<mapsto> v), ks(k \<mapsto> names_at ks k @ [name]))"

fun merge_fragments ::
  "EnvFragment list \<Rightarrow> (string \<rightharpoonup> string) \<times> (string \<rightharpoonup> string list)
     \<Rightarrow> (string \<rightharpoonup> string) \<times> (string \<rightharpoonup> string list)" where
  "merge_fragments [] acc = acc"
| "merge_fragments (frag # frags) acc = merge_fragments frags (merge_env (Name frag) (Env frag) acc)"

text \<open>
  \<open>merged\<close> is created only when it is \<open>nil\<close>; \<open>keySources\<close> is created anew on every call.
  The second loop of the source only reads \<open>keySources\<close> and changes nothing.
\<close>

definition SortAndMerge :: "Time \<Rightarrow> EnvManager \<Rightarrow> EnvManager" where
  "SortAndMerge now e =
     (let m0 = (case merged e of None \<Rightarrow> Map.empty | Some m \<Rightarrow> m);
          ks0 = Map.empty;
          frags = SliceStable priority_less (fragments e);
          (m, ks) = merge_fragments frags (m0, ks0)
      in e\<lparr>fragments := frags, merged := Some m, keySources := Some ks,
            sorted := True, ctime := now\<rparr>)"

section \<open>Emission\<close>

definition nl :: string where
  "nl = [CHR 0x0A]"

definition dq :: string where
  "dq = [CHR 0x22]"

fun export_lines :: "(string \<times> string) list \<Rightarrow> string" where
  "export_lines [] = []"
| "export_lines ((k, v) # kvs) = (''export '' @ k @ ''='' @ dq @ v @ dq @ nl) @ export_lines kvs"

fun psh_lines :: "(string \<times> string) list \<Rightarrow> string" where
  "psh_lines [] = []"
| "psh_lines ((k, v) # kvs) = (''$Env:'' @ k @ '' = '' @ dq @ v @ dq @ nl) @ psh_lines kvs"

fun script_lines :: "string \<Rightarrow> Script list \<Rightarrow> string" where
  "script_lines tag [] = []"
| "script_lines tag (sc # scs) =
     (if Sh sc = tag then Data sc @ nl else []) @ script_lines tag scs"

definition fragment_header :: "EnvFragment \<Rightarrow> string" where
  "fragment_header frag = ''# --- Fragment: '' @ Name frag @ '' ---'' @ nl"

fun bash_fragments :: "EnvFragment list \<Rightarrow> string" where
  "bash_fragments [] = []"
| "bash_fragments (frag # frags) =
     fragment_header frag @ export_lines (Env frag) @ script_lines ''bash'' (Script frag) @ nl
       @ bash_fragments frags"

fun zsh_fragments :: "EnvFragment list \<Rightarrow> string" where
  "zsh_fragments [] = []"
| "zsh_fragments (frag # frags) =
     (if Name frag \<noteq> [] then fragment_header frag else [])
       @ export_lines (Env frag) @ script_lines ''zsh'' (Script frag) @ nl
       @ zsh_fragments frags"

fun psh_fragments :: "EnvFragment list \<Rightarrow> string" where
  "psh_fragments [] = []"
| "psh_fragments (frag # frags) =
     (if Name frag \<noteq> [] then fragment_header frag else [])
       @ psh_lines (Env frag) @ script_lines ''pw'' (Script frag) @ nl
       @ psh_fragments frags"

text \<open>
  Each builder takes the RFC3339 formatter and whether \<open>os.Create\<close> succeeds, and returns
  the text written to the file.
\<close>

definition BuildBash :: "(Time \<Rightarrow> string) \<Rightarrow> bool \<Rightarrow> EnvManager \<Rightarrow> error + string" where
  "BuildBash rfc3339 created e =
     (if \<not> sorted e then Inl NotMerged
      else if \<not> created then Inl CreateFailed
      else Inr (''# Env generated at '' @ rfc3339 (ctime e) @ nl
                @ ''export ENV_CTIME='' @ dq @ rfc3339 (ctime e) @ dq @ nl @ nl
                @ bash_fragments (fragments e)))"

definition BuildZsh :: "(Time \<Rightarrow> string) \<Rightarrow> bool \<Rightarrow> EnvManager \<Rightarrow> error + string" where
  "BuildZsh rfc3339 created e =
     (if \<not> sorted e then Inl NotMerged
      else if \<not> created then Inl CreateFailed
      else Inr (''# Env generated at '' @ rfc3339 (ctime e) @ nl
                @ ''export ENV_CTIME='' @ dq @ rfc3339 (ctime e) @ dq @ nl
                @ zsh_fragments (fragments e)))"

definition BuildPsh :: "(Time \<Rightarrow> string) \<Rightarrow> bool \<Rightarrow> EnvManager \<Rightarrow> error + string" where
  "BuildPsh rfc3339 created e =
     (if \<not> sorted e then Inl NotMerged
      else if \<not> created then Inl CreateFailed
      else Inr (''$Env:ENV_CTIME = '' @ dq @ rfc3339 (ctime e) @ dq @ nl
                @ psh_fragments (fragments e)))"

text \<open>\<open>WriteMeta\<close> also takes whether \<open>WriteString\<close> succeeds.\<close>

definition WriteMeta :: "(Time \<Rightarrow> string) \<Rightarrow> bool \<Rightarrow> bool \<Rightarrow> EnvManager \<Rightarrow> error + string" where
  "WriteMeta rfc3339 created written e =
     (if \<not> sorted e then Inl NotMerged
      else if \<not> created then Inl CreateFailed
      else if \<not> written then Inl WriteFailed
      else Inr (rfc3339 (ctime e)))"

section \<open>Search\<close>

text \<open>
  \<open>regexp.Compile\<close> is the parameter \<open>compile\<close>: it yields the matcher
  (\<open>re.MatchString\<close>) of a pattern, or nothing when the pattern is malformed.
\<close>

fun search_env :: "(string \<Rightarrow> bool) \<Rightarrow> string \<Rightarrow> (string \<times> string) list \<Rightarrow> SearchResult list" where
  "search_env re name [] = []"
| "search_env re name ((k, v) # kvs) =
     (if re k \<or> re v then [\<lparr>FragmentName = name, Key = k, Value = v\<rparr>] else [])
       @ search_env re name kvs"

fun search_scripts :: "(string \<Rightarrow> bool) \<Rightarrow> string \<Rightarrow> Script list \<Rightarrow> SearchResult list" where
  "search_scripts re name [] = []"
| "search_scripts re name (sc # scs) =
     (if re (Data sc)
      then [\<lparr>FragmentName = name, Key = ''script['' @ Sh sc @ '']'', Value = Data sc\<rparr>]
      else [])
       @ search_scripts re name scs"

fun search_fragments :: "(string \<Rightarrow> bool) \<Rightarrow> EnvFragment list \<Rightarrow> SearchResult list" where
  "search_fragments re [] = []"
| "search_fragments re (frag # frags) =
     search_env re (Name frag) (Env frag) @ search_scripts re (Name frag) (Script frag)
       @ search_fragments re frags"

definition Search ::
  "(string \<Rightarrow> (string \<Rightarrow> bool) option) \<Rightarrow> string \<Rightarrow> EnvManager \<Rightarrow> error + SearchResult list" where
  "Search compile pattern e =
     (if \<not> sorted e then Inl NotMerged
      else case compile pattern of
        None \<Rightarrow> Inl InvalidPattern
      | Some re \<Rightarrow> Inr (search_fragments re (fragments e)))"

section \<open>SaveAllYaml and LoadAllYaml\<close>

text \<open>
  The YAML text is the library's business: \<open>SaveAllYaml\<close> hands a \<open>dumpStruct\<close> to
  \<open>yaml.Marshal\<close> and \<open>LoadAllYaml\<close> receives one from \<open>yaml.Unmarshal\<close>. A saved file is
  the document it holds. \<open>merged\<close> and \<open>keySources\<close> are not part of the document.
\<close>

definition SaveAllYaml :: "(Time \<Rightarrow> string) \<Rightarrow> bool \<Rightarrow> EnvManager \<Rightarrow> error + dumpStruct" where
  "SaveAllYaml rfc3339 written e =
     (let d = \<lparr>Sorted = sorted e, CTime = rfc3339 (ctime e), Fragments = fragments e\<rparr>
      in if \<not> written then Inl WriteFailed else Inr d)"

datatype yaml_file = Unreadable | Malformed | Document dumpStruct

definition LoadAllYaml ::
  "(string \<Rightarrow> Time option) \<Rightarrow> Time \<Rightarrow> yaml_file \<Rightarrow> EnvManager \<Rightarrow> error option \<times> EnvManager" where
  "LoadAllYaml parse_rfc3339 now file e =
     (case file of
        Unreadable \<Rightarrow> (Some ReadFailed, e)
      | Malformed \<Rightarrow> (Some ParseFailed, e)
      | Document d \<Rightarrow>
          (let e1 = e\<lparr>fragments := Fragments d, sorted := Sorted d\<rparr>;
               e2 = (if CTime d \<noteq> []
                     then (case parse_rfc3339 (CTime d) of
                             Some t \<Rightarrow> e1\<lparr>ctime := t\<rparr>
                           | None \<Rightarrow> e1)
                     else e1)
           in (None, SortAndMerge now e2)))"

section \<open>The fragments of the example program\<close>

text \<open>The three fragments that the example \<open>main\<close> builds by hand and the table entries
  their names stand for (a system component, an internal component, a custom fragment).\<close>

definition systemFrag :: EnvFragment where
  "systemFrag = \<lparr>Name = ''system_base'', Priority = 10,
     Env = [(''PATH'', ''/usr/local/bin:/usr/bin''), (''LANG'', ''en_US.UTF-8'')],
     Script = [\<lparr>Sh = ''bash'', Data = ''echo '' @ dq @ ''System base script executed'' @ dq\<rparr>,
               \<lparr>Sh = ''pwsh'', Data = ''Write-Host '' @ dq @ ''System base PowerShell script'' @ dq\<rparr>],
     Source = ''system.yaml''\<rparr>"

definition innerFrag :: EnvFragment where
  "innerFrag = \<lparr>Name = ''internal_service'', Priority = 30,
     Env = [(''LANG'', ''zh_CN.UTF-8''), (''APP_HOME'', ''/opt/app'')],
     Script = [\<lparr>Sh = ''bash'',
                 Data = ''if [ -z '' @ dq @ ''$APP_URL'' @ dq @ '' ]; then'' @ nl
                   @ ''  export APP_URL='' @ dq @ ''http://localhost:8080'' @ dq @ nl @ ''fi''\<rparr>,
               \<lparr>Sh = ''zsh'',
                 Data = ''if [[ -z '' @ dq @ ''$APP_URL'' @ dq @ '' ]]; then'' @ nl
                   @ ''  export APP_URL='' @ dq @ ''http://localhost:8080'' @ dq @ nl @ ''fi''\<rparr>],
     Source = ''internal.yaml''\<rparr>"

definition customFrag :: EnvFragment where
  "customFrag = \<lparr>Name = ''user_service'', Priority = 150,
     Env = [(''APP_HOME'', ''/home/user/app''), (''DEBUG'', ''true'')],
     Script = [\<lparr>Sh = ''bash'', Data = ''echo '' @ dq @ ''User service Bash script'' @ dq\<rparr>,
               \<lparr>Sh = ''pwsh'', Data = ''Write-Host '' @ dq @ ''User service PowerShell script'' @ dq\<rparr>],
     Source = ''user.yaml''\<rparr>"

definition example_SystemEnv :: "string \<rightharpoonup> int" where
  "example_SystemEnv = [''system_base'' \<mapsto> 1]"

definition example_InnerComponentEnv :: "string \<rightharpoonup> int" where
  "example_InnerComponentEnv = [''internal_service'' \<mapsto> 1]"

definition example_manager :: EnvManager where
  "example_manager = new_manager\<lparr>fragments := [systemFrag, innerFrag, customFrag]\<rparr>"

section \<open>Histories of a manager\<close>

text \<open>
  The methods that change a manager, as calls with the outcome of their I/O, and the
  manager a sequence of calls leaves behind. \<open>merges\<close> tells the calls that run
  \<open>SortAndMerge\<close>: the method itself, and \<open>LoadAllYaml\<close> once the file has been read and
  unmarshalled.
\<close>

datatype call =
    CallFeedFile string "decoded list option"
  | CallSortAndMerge Time
  | CallLoadAllYaml Time yaml_file

fun exec ::
  "(string \<rightharpoonup> int) \<Rightarrow> (string \<rightharpoonup> int) \<Rightarrow> (string \<Rightarrow> Time option) \<Rightarrow> call \<Rightarrow> EnvManager
     \<Rightarrow> EnvManager" where
  "exec S I parse_rfc3339 (CallFeedFile fpath file) e = snd (FeedFile S I fpath file e)"
| "exec S I parse_rfc3339 (CallSortAndMerge now) e = SortAndMerge now e"
| "exec S I parse_rfc3339 (CallLoadAllYaml now file) e = snd (LoadAllYaml parse_rfc3339 now file e)"

fun run ::
  "(string \<rightharpoonup> int) \<Rightarrow> (string \<rightharpoonup> int) \<Rightarrow> (string \<Rightarrow> Time option) \<Rightarrow> call list \<Rightarrow> EnvManager
     \<Rightarrow> EnvManager" where
  "run S I parse_rfc3339 [] e = e"
| "run S I parse_rfc3339 (c # cs) e = run S I parse_rfc3339 cs (exec S I parse_rfc3339 c e)"

fun merges :: "call \<Rightarrow> bool" where
  "merges (CallSortAndMerge now) = True"
| "merges (CallLoadAllYaml now (Document d)) = True"
| "merges c = False"

text \<open>
  Two values of one fragment that differ only in the order in which \<open>range\<close> visits the
  entries of \<open>Env\<close>.
\<close>

definition range_reordered :: "EnvFragment \<Rightarrow> EnvFragment \<Rightarrow> bool" where
  "range_reordered f g =
     (g = f\<lparr>Env := Env g\<rparr> \<and> set (Env g) = set (Env f) \<and> distinct (map fst (Env g)))"

section \<open>A literal matcher for running examples\<close>

text \<open>
  A stand-in for \<open>regexp.Compile\<close> on the patterns the examples use: a pattern of letters,
  digits and underscores matches a string exactly when it occurs in it, as it does for
  \<open>regexp\<close>; every other pattern is rejected here (as \<open>regexp\<close> rejects \<open>(\<close>).
\<close>

fun starts_with :: "string \<Rightarrow> string \<Rightarrow> bool" where
  "starts_with s [] = True"
| "starts_with [] (c # p) = False"
| "starts_with (d # s) (c # p) = (d = c \<and> starts_with s p)"

fun occurs_in :: "string \<Rightarrow> string \<Rightarrow> bool" where
  "occurs_in p [] = (p = [])"
| "occurs_in p (d # s) = (starts_with (d # s) p \<or> occurs_in p s)"

definition word_chars :: string where
  "word_chars = ''ABCDEFGHIJKLMNOPQRSTUVWXYZabcdefghijklmnopqrstuvwxyz0123456789_''"

definition literal_compile :: "string \<Rightarrow> (string \<Rightarrow> bool) option" where
  "literal_compile p = (if list_all (\<lambda>c. c \<in> set word_chars) p then Some (occurs_in p) else None)"

section \<open>Saving, restoring into a fresh manager, merging again\<close>

text \<open>
  The round trip over a fresh manager: \<open>SaveAllYaml\<close> on \<open>e\<close>, \<open>LoadAllYaml\<close> of the saved
  document into the zero manager, then \<open>SortAndMerge\<close> once more.
\<close>

definition round_trip ::
  "(Time \<Rightarrow> string) \<Rightarrow> (string \<Rightarrow> Time option) \<Rightarrow> Time \<Rightarrow> Time \<Rightarrow> EnvManager
     \<Rightarrow> error + EnvManager" where
  "round_trip rfc3339 parse_rfc3339 t1 t2 e =
     (case SaveAllYaml rfc3339 True e of
        Inl err \<Rightarrow> Inl err
      | Inr d \<Rightarrow>
          (case LoadAllYaml parse_rfc3339 t1 (Document d) new_manager of
             (Some err, e') \<Rightarrow> Inl err
           | (None, e') \<Rightarrow> Inr (SortAndMerge t2 e')))"

text \<open>
  A history through the exported methods only: feed the system fragment from a file,
  merge, then load a saved state that holds the custom fragment alone.
\<close>

definition reload_history :: "call list" where
  "reload_history =
     [CallFeedFile ''system.yaml'' (Some [Decoded systemFrag]),
      CallSortAndMerge 1,
      CallLoadAllYaml 2 (Document \<lparr>Sorted = True, CTime = [], Fragments = [customFrag]\<rparr>)]"

definition reloaded_manager :: EnvManager where
  "reloaded_manager =
     run example_SystemEnv example_InnerComponentEnv (\<lambda>s. None) reload_history new_manager"

section \<open>validateFragment: the system tier\<close>

lemma validateFragment_system:
  "Name frag \<noteq> [] \<Longrightarrow> int_at S (Name frag) > 0 \<Longrightarrow>
   validateFragment S I frag = (if Priority frag > 19 then Some PriorityOutOfRange else None)"
  by (simp add: validateFragment_def)

text \<open>
  C2. A system fragment is to be rejected with \<open>PriorityOutOfRange\<close> exactly when its
  priority lies outside 0..19; the message of the system branch says so as well. The code
  tests the upper bound only: the system fragment \<open>system_base\<close> with priority \<open>-1\<close> passes
  validation.
\<close>

theorem validateFragment_system_negative_accepted:
  "validateFragment example_SystemEnv example_InnerComponentEnv (systemFrag\<lparr>Priority := - 1\<rparr>) = None"
  by (simp add: validateFragment_def int_at_def example_SystemEnv_def systemFrag_def)

section \<open>FeedFile stops at the first bad document\<close>

lemma feed_docs_valid_prefix:
  "\<forall>f\<in>set fs. validateFragment S I (f\<lparr>Source := fpath\<rparr>) = None \<Longrightarrow>
   feed_docs S I fpath (map Decoded fs @ ds) e =
     feed_docs S I fpath ds (e\<lparr>fragments := fragments e @ map (\<lambda>f. f\<lparr>Source := fpath\<rparr>) fs\<rparr>)"
  by (induction fs arbitrary: e) simp_all

text \<open>
  C10. \<open>FeedFile\<close> is not atomic. When the documents \<open>fs\<close> of a file decode and pass
  validation and the next document fails to decode or fails validation, \<open>FeedFile\<close> returns
  an error and the manager holds every fragment of \<open>fs\<close> (with \<open>Source\<close> set to the path),
  appended to the fragments it had before; nothing is rolled back.
\<close>

theorem FeedFile_not_atomic:
  assumes valid: "\<forall>f\<in>set fs. validateFragment S I (f\<lparr>Source := fpath\<rparr>) = None"
    and bad: "bad = DecodeError \<or>
              (\<exists>f. bad = Decoded f \<and> validateFragment S I (f\<lparr>Source := fpath\<rparr>) \<noteq> None)"
  shows "fst (FeedFile S I fpath (Some (map Decoded fs @ bad # rest)) e) \<noteq> None \<and>
         snd (FeedFile S I fpath (Some (map Decoded fs @ bad # rest)) e) =
           e\<lparr>fragments := fragments e @ map (\<lambda>f. f\<lparr>Source := fpath\<rparr>) fs\<rparr>"
  using bad by (auto simp: FeedFile_def feed_docs_valid_prefix[OF valid])

theorem FeedFile_not_atomic_witness:
  "fst (FeedFile Map.empty Map.empty ''user.yaml''
          (Some [Decoded customFrag, Decoded (customFrag\<lparr>Priority := 5\<rparr>), Decoded customFrag])
          new_manager) = Some (ValidationFailed PriorityOutOfRange) \<and>
   fragments (snd (FeedFile Map.empty Map.empty ''user.yaml''
          (Some [Decoded customFrag, Decoded (customFrag\<lparr>Priority := 5\<rparr>), Decoded customFrag])
          new_manager)) = [customFrag]"
proof -
  have v: "\<forall>f\<in>set [customFrag].
             validateFragment Map.empty Map.empty (f\<lparr>Source := ''user.yaml''\<rparr>) = None"
    by (simp add: validateFragment_def int_at_def customFrag_def)
  have b: "Decoded (customFrag\<lparr>Priority := 5\<rparr>) = DecodeError \<or>
           (\<exists>f. Decoded (customFrag\<lparr>Priority := 5\<rparr>) = Decoded f \<and>
                validateFragment Map.empty Map.empty (f\<lparr>Source := ''user.yaml''\<rparr>) \<noteq> None)"
    by (simp add: validateFragment_def int_at_def customFrag_def)
  from FeedFile_not_atomic[OF v b, of "[Decoded customFrag]" new_manager]
  show ?thesis
    by (simp add: FeedFile_def validateFragment_def int_at_def customFrag_def new_manager_def)
qed

section \<open>The gate on merged state\<close>

lemma sorted_SortAndMerge: "sorted (SortAndMerge now e)"
  by (simp add: SortAndMerge_def Let_def split: prod.splits)

lemma sorted_FeedFile: "sorted (snd (FeedFile S I fpath fl e)) = sorted e"
proof (cases fl)
  case None
  then show ?thesis by (simp add: FeedFile_def)
next
  case (Some docs)
  have "sorted (snd (feed_docs S I fpath docs e)) = sorted e"
    by (induction S I fpath docs e rule: feed_docs.induct)
      (simp_all add: Let_def split: option.splits)
  with Some show ?thesis by (simp add: FeedFile_def)
qed

lemma sorted_exec: "sorted (exec S I parse c e) = (sorted e \<or> merges c)"
proof (cases c)
  case (CallLoadAllYaml now fl)
  then show ?thesis
    by (cases fl) (simp_all add: LoadAllYaml_def Let_def sorted_SortAndMerge)
qed (simp_all add: sorted_FeedFile sorted_SortAndMerge)

lemma sorted_run: "sorted (run S I parse cs e) = (sorted e \<or> list_ex merges cs)"
  by (induction cs arbitrary: e) (auto simp: sorted_exec)

text \<open>
  C8. Let \<open>e\<close> be the manager that a sequence \<open>cs\<close> of calls leaves behind, starting from
  the zero manager. \<open>Search\<close> returns an error exactly when no call of \<open>cs\<close> has run a
  merge or the pattern does not compile; in the first case the error is \<open>NotMerged\<close>
  (whatever the pattern), in the second \<open>InvalidPattern\<close>. As long as no merge has run,
  \<open>BuildBash\<close>, \<open>BuildZsh\<close>, \<open>BuildPsh\<close> and \<open>WriteMeta\<close> fail with \<open>NotMerged\<close> as well,
  whatever the file system would do.
\<close>

theorem NotMerged_gating:
  assumes e: "e = run S I parse cs new_manager"
  shows "(isl (Search compile pattern e) \<longleftrightarrow> \<not> list_ex merges cs \<or> compile pattern = None) \<and>
         (\<not> list_ex merges cs \<longrightarrow>
            Search compile pattern e = Inl NotMerged \<and>
            BuildBash rfc3339 c1 e = Inl NotMerged \<and>
            BuildZsh rfc3339 c2 e = Inl NotMerged \<and>
            BuildPsh rfc3339 c3 e = Inl NotMerged \<and>
            WriteMeta rfc3339 c4 w e = Inl NotMerged) \<and>
         (list_ex merges cs \<and> compile pattern = None \<longrightarrow>
            Search compile pattern e = Inl InvalidPattern)"
proof -
  have s: "sorted e = list_ex merges cs"
    by (simp add: e sorted_run new_manager_def)
  show ?thesis
    by (auto simp: s Search_def BuildBash_def BuildZsh_def BuildPsh_def WriteMeta_def
        split: option.splits)
qed

theorem NotMerged_gating_witness:
  "Search literal_compile ''APP_HOME'' (run Map.empty Map.empty (\<lambda>s. None) [] new_manager)
     = Inl NotMerged \<and>
   BuildBash (\<lambda>t. ''T'') True (run Map.empty Map.empty (\<lambda>s. None) [] new_manager) = Inl NotMerged \<and>
   BuildZsh (\<lambda>t. ''T'') True (run Map.empty Map.empty (\<lambda>s. None) [] new_manager) = Inl NotMerged \<and>
   BuildPsh (\<lambda>t. ''T'') True (run Map.empty Map.empty (\<lambda>s. None) [] new_manager) = Inl NotMerged \<and>
   WriteMeta (\<lambda>t. ''T'') True True (run Map.empty Map.empty (\<lambda>s. None) [] new_manager)
     = Inl NotMerged \<and>
   Search literal_compile ''(''
     (run Map.empty Map.empty (\<lambda>s. None) [CallSortAndMerge 1] new_manager) = Inl InvalidPattern \<and>
   \<not> isl (Search literal_compile ''APP_HOME''
     (run Map.empty Map.empty (\<lambda>s. None) [CallSortAndMerge 1] new_manager))"
proof -
  have none: "\<not> list_ex merges []" by simp
  have some: "list_ex merges [CallSortAndMerge 1]" by simp
  have bad: "literal_compile ''('' = None"
    by (simp add: literal_compile_def word_chars_def)
  have good: "literal_compile ''APP_HOME'' \<noteq> None"
    by (simp add: literal_compile_def word_chars_def)
  note a = NotMerged_gating[where cs = "[]" and compile = literal_compile
      and pattern = "''APP_HOME''" and S = Map.empty and I = Map.empty and parse = "\<lambda>s. None"
      and ?rfc3339.0 = "\<lambda>t. ''T''" and ?c1.0 = True and ?c2.0 = True and ?c3.0 = True
      and ?c4.0 = True and w = True, OF refl]
  note b = NotMerged_gating[where cs = "[CallSortAndMerge 1]" and compile = literal_compile
      and pattern = "''(''" and S = Map.empty and I = Map.empty and parse = "\<lambda>s. None"
      and ?rfc3339.0 = "\<lambda>t. ''T''" and ?c1.0 = True and ?c2.0 = True and ?c3.0 = True
      and ?c4.0 = True and w = True, OF refl]
  note c = NotMerged_gating[where cs = "[CallSortAndMerge 1]" and compile = literal_compile
      and pattern = "''APP_HOME''" and S = Map.empty and I = Map.empty
      and parse = "\<lambda>s. None" and ?rfc3339.0 = "\<lambda>t. ''T''" and ?c1.0 = True
      and ?c2.0 = True and ?c3.0 = True and ?c4.0 = True and w = True, OF refl]
  from a have "Search literal_compile ''APP_HOME''
        (run Map.empty Map.empty (\<lambda>s. None) [] new_manager) = Inl NotMerged \<and>
      BuildBash (\<lambda>t. ''T'') True (run Map.empty Map.empty (\<lambda>s. None) [] new_manager)
        = Inl NotMerged \<and>
      BuildZsh (\<lambda>t. ''T'') True (run Map.empty Map.empty (\<lambda>s. None) [] new_manager)
        = Inl NotMerged \<and>
      BuildPsh (\<lambda>t. ''T'') True (run Map.empty Map.empty (\<lambda>s. None) [] new_manager)
        = Inl NotMerged \<and>
      WriteMeta (\<lambda>t. ''T'') True True (run Map.empty Map.empty (\<lambda>s. None) [] new_manager)
        = Inl NotMerged"
    using none by blast
  moreover from b have "Search literal_compile ''(''
      (run Map.empty Map.empty (\<lambda>s. None) [CallSortAndMerge 1] new_manager) = Inl InvalidPattern"
    using some bad by blast
  moreover from c have "\<not> isl (Search literal_compile ''APP_HOME''
      (run Map.empty Map.empty (\<lambda>s. None) [CallSortAndMerge 1] new_manager))"
    using some good by blast
  ultimately show ?thesis by blast
qed

section \<open>Search\<close>

lemma search_env_filter:
  "search_env re n kvs =
     map (\<lambda>(k, v). \<lparr>FragmentName = n, Key = k, Value = v\<rparr>) (filter (\<lambda>(k, v). re k \<or> re v) kvs)"
  by (induction re n kvs rule: search_env.induct) simp_all

lemma search_scripts_filter:
  "search_scripts re n scs =
     map (\<lambda>sc. \<lparr>FragmentName = n, Key = ''script['' @ Sh sc @ '']'', Value = Data sc\<rparr>)
       (filter (\<lambda>sc. re (Data sc)) scs)"
  by (induction re n scs rule: search_scripts.induct) simp_all

lemma search_fragments_append:
  "search_fragments re (fs @ gs) = search_fragments re fs @ search_fragments re gs"
  by (induction fs) simp_all

lemma set_search_env:
  "set (search_env re n kvs) =
     {\<lparr>FragmentName = n, Key = k, Value = v\<rparr> | k v. (k, v) \<in> set kvs \<and> (re k \<or> re v)}"
  by (auto simp: search_env_filter)

lemma set_search_scripts:
  "set (search_scripts re n scs) =
     {\<lparr>FragmentName = n, Key = ''script['' @ Sh sc @ '']'', Value = Data sc\<rparr> | sc.
        sc \<in> set scs \<and> re (Data sc)}"
  by (auto simp: search_scripts_filter)

lemma set_search_fragments:
  "set (search_fragments re fs) =
     (\<Union>f\<in>set fs.
        {\<lparr>FragmentName = Name f, Key = k, Value = v\<rparr> | k v. (k, v) \<in> set (Env f) \<and> (re k \<or> re v)} \<union>
        {\<lparr>FragmentName = Name f, Key = ''script['' @ Sh sc @ '']'', Value = Data sc\<rparr> | sc.
           sc \<in> set (Script f) \<and> re (Data sc)})"
  by (induction fs) (simp_all add: set_search_env set_search_scripts Un_assoc)

lemma length_search_fragments:
  "length (search_fragments re fs) =
     (\<Sum>f\<leftarrow>fs. length (filter (\<lambda>(k, v). re k \<or> re v) (Env f))
              + length (filter (\<lambda>sc. re (Data sc)) (Script f)))"
  by (induction fs) (simp_all add: search_env_filter search_scripts_filter)

lemma search_fragment_hit:
  assumes "(k, v) \<in> set (Env f)" "re k \<or> re v"
  shows "\<exists>A B. search_fragments re [f] = A @ \<lparr>FragmentName = Name f, Key = k, Value = v\<rparr> # B"
proof -
  have "\<lparr>FragmentName = Name f, Key = k, Value = v\<rparr> \<in> set (search_fragments re [f])"
    unfolding set_search_fragments using assms by auto
  then show ?thesis by (simp only: in_set_conv_decomp)
qed

text \<open>
  C7. On a merged manager and a pattern that compiles to the matcher \<open>re\<close>, \<open>Search\<close>
  returns a list \<open>rs\<close> that does not depend on \<open>merged\<close> or \<open>keySources\<close>: it scans the
  fragments' own \<open>Env\<close> and \<open>Script\<close>. A result is in \<open>rs\<close> exactly when it is an entry of
  some fragment whose key or value matches, or a script of some fragment whose text
  matches (under the key \<open>script[sh]\<close>); \<open>rs\<close> has one element per such entry and script,
  nothing is deduplicated. In particular, when two fragments \<open>f1\<close> (earlier) and \<open>f2\<close>
  (later) both define a key \<open>k\<close> that the pattern matches, \<open>rs\<close> holds a result for \<open>f1\<close>
  and, after it, a result for \<open>f2\<close>.
\<close>

theorem Search_scans_fragments:
  assumes srt: "sorted e" and re: "compile pattern = Some re"
    and frs: "fragments e = xs @ f1 # ys @ f2 # zs"
    and k1: "(k, v1) \<in> set (Env f1)" and k2: "(k, v2) \<in> set (Env f2)" and m: "re k"
  shows "\<exists>rs. Search compile pattern e = Inr rs \<and>
           Search compile pattern (e\<lparr>merged := mg, keySources := ks\<rparr>) = Inr rs \<and>
           (\<exists>P Q R. rs = P @ \<lparr>FragmentName = Name f1, Key = k, Value = v1\<rparr>
                          # Q @ \<lparr>FragmentName = Name f2, Key = k, Value = v2\<rparr> # R) \<and>
           set rs =
             (\<Union>f\<in>set (fragments e).
                {\<lparr>FragmentName = Name f, Key = k', Value = v\<rparr> | k' v.
                   (k', v) \<in> set (Env f) \<and> (re k' \<or> re v)} \<union>
                {\<lparr>FragmentName = Name f, Key = ''script['' @ Sh sc @ '']'', Value = Data sc\<rparr> | sc.
                   sc \<in> set (Script f) \<and> re (Data sc)}) \<and>
           length rs =
             (\<Sum>f\<leftarrow>fragments e. length (filter (\<lambda>(k', v). re k' \<or> re v) (Env f))
                + length (filter (\<lambda>sc. re (Data sc)) (Script f)))"
proof -
  let ?rs = "search_fragments re (fragments e)"
  from m have m1: "re k \<or> re v1" and m2: "re k \<or> re v2" by simp_all
  obtain A1 B1 where h1:
    "search_fragments re [f1] = A1 @ \<lparr>FragmentName = Name f1, Key = k, Value = v1\<rparr> # B1"
    using search_fragment_hit[of k v1 f1 re, OF k1 m1] by blast
  obtain A2 B2 where h2:
    "search_fragments re [f2] = A2 @ \<lparr>FragmentName = Name f2, Key = k, Value = v2\<rparr> # B2"
    using search_fragment_hit[of k v2 f2 re, OF k2 m2] by blast
  have split: "?rs = search_fragments re xs @ search_fragments re [f1] @ search_fragments re ys
                   @ search_fragments re [f2] @ search_fragments re zs"
    unfolding frs by (simp add: search_fragments_append)
  have order: "?rs = (search_fragments re xs @ A1) @ \<lparr>FragmentName = Name f1, Key = k, Value = v1\<rparr>
          # (B1 @ search_fragments re ys @ A2) @ \<lparr>FragmentName = Name f2, Key = k, Value = v2\<rparr>
          # (B2 @ search_fragments re zs)"
    unfolding split h1 h2 by simp
  have "Search compile pattern e = Inr ?rs"
    by (simp add: Search_def srt re)
  moreover have "Search compile pattern (e\<lparr>merged := mg, keySources := ks\<rparr>) = Inr ?rs"
    by (simp add: Search_def srt re)
  moreover have "\<exists>P Q R. ?rs = P @ \<lparr>FragmentName = Name f1, Key = k, Value = v1\<rparr>
                          # Q @ \<lparr>FragmentName = Name f2, Key = k, Value = v2\<rparr> # R"
    using order by blast
  ultimately show ?thesis
    using set_search_fragments[of re "fragments e"] length_search_fragments[of re "fragments e"]
    by blast
qed

lemma example_sorted_fragments:
  "fragments (SortAndMerge 1 example_manager) = [systemFrag] @ innerFrag # [] @ customFrag # []"
  by (simp add: SortAndMerge_def example_manager_def new_manager_def SliceStable_def
      priority_less_def systemFrag_def innerFrag_def customFrag_def Let_def split: prod.splits)

lemma example_search:
  "Search literal_compile ''APP_HOME'' (SortAndMerge 1 example_manager) =
     Inr [\<lparr>FragmentName = ''internal_service'', Key = ''APP_HOME'', Value = ''/opt/app''\<rparr>,
          \<lparr>FragmentName = ''user_service'', Key = ''APP_HOME'', Value = ''/home/user/app''\<rparr>]"
proof -
  have "literal_compile ''APP_HOME'' = Some (occurs_in ''APP_HOME'')"
    by (simp add: literal_compile_def word_chars_def)
  then show ?thesis
    by (simp add: Search_def example_sorted_fragments sorted_SortAndMerge)
      (simp add: systemFrag_def innerFrag_def customFrag_def dq_def nl_def)
qed

theorem Search_scans_fragments_witness:
  "Search literal_compile ''APP_HOME'' (SortAndMerge 1 example_manager) =
     Inr [\<lparr>FragmentName = ''internal_service'', Key = ''APP_HOME'', Value = ''/opt/app''\<rparr>,
          \<lparr>FragmentName = ''user_service'', Key = ''APP_HOME'', Value = ''/home/user/app''\<rparr>] \<and>
   Search literal_compile ''APP_HOME''
       ((SortAndMerge 1 example_manager)\<lparr>merged := None, keySources := None\<rparr>) =
     Search literal_compile ''APP_HOME'' (SortAndMerge 1 example_manager) \<and>
   merged_at (SortAndMerge 1 example_manager) ''APP_HOME'' = Some ''/home/user/app''"
proof -
  have c: "literal_compile ''APP_HOME'' = Some (occurs_in ''APP_HOME'')"
    by (simp add: literal_compile_def word_chars_def)
  have k1: "(''APP_HOME'', ''/opt/app'') \<in> set (Env innerFrag)"
    by (simp add: innerFrag_def)
  have k2: "(''APP_HOME'', ''/home/user/app'') \<in> set (Env customFrag)"
    by (simp add: customFrag_def)
  have m: "occurs_in ''APP_HOME'' ''APP_HOME''" by simp
  have mg: "merged_at (SortAndMerge 1 example_manager) ''APP_HOME'' = Some ''/home/user/app''"
    by (simp add: merged_at_def SortAndMerge_def example_manager_def new_manager_def
        SliceStable_def priority_less_def systemFrag_def innerFrag_def customFrag_def Let_def
        split: prod.splits)
  from Search_scans_fragments[where e = "SortAndMerge 1 example_manager"
      and compile = literal_compile and pattern = "''APP_HOME''"
      and re = "occurs_in ''APP_HOME''" and xs = "[systemFrag]" and ?f1.0 = innerFrag
      and ys = "[]" and ?f2.0 = customFrag and zs = "[]" and k = "''APP_HOME''"
      and ?v1.0 = "''/opt/app''" and ?v2.0 = "''/home/user/app''" and mg = None and ks = None,
      OF sorted_SortAndMerge c example_sorted_fragments k1 k2 m]
  show ?thesis using example_search mg by auto
qed

section \<open>The sort of SortAndMerge\<close>

lemma insert_stable_insort_key:
  fixes key :: "'a \<Rightarrow> 'b::linorder"
  shows "insert_stable (\<lambda>a b. key a < key b) x ys = insort_key key x ys"
  by (induction ys) auto

lemma SliceStable_sort_key:
  fixes key :: "'a \<Rightarrow> 'b::linorder"
  shows "SliceStable (\<lambda>a b. key a < key b) xs = sort_key key xs"
  by (induction xs) (simp_all add: SliceStable_def insert_stable_insort_key)

lemma SliceStable_priority: "SliceStable priority_less fs = sort_key Priority fs"
proof -
  have eq: "priority_less = (\<lambda>a b. Priority a < Priority b)"
    by (intro ext) (simp add: priority_less_def)
  show ?thesis unfolding eq by (rule SliceStable_sort_key)
qed

lemma SliceStable_tagged:
  "SliceStable (\<lambda>a b. priority_less (fst a) (fst b)) ts = sort_key (\<lambda>t. Priority (fst t)) ts"
proof -
  have eq: "priority_less = (\<lambda>a b. Priority a < Priority b)"
    by (intro ext) (simp add: priority_less_def)
  show ?thesis unfolding eq by (rule SliceStable_sort_key)
qed

lemma fragments_SortAndMerge:
  "fragments (SortAndMerge now e) = sort_key Priority (fragments e)"
  by (simp add: SortAndMerge_def Let_def SliceStable_priority split: prod.splits)

lemma map_fst_insort_key:
  "map fst (insort_key (\<lambda>t. f (fst t)) x ys) = insort_key f (fst x) (map fst ys)"
  by (induction ys) simp_all

lemma map_fst_sort_key:
  "map fst (sort_key (\<lambda>t. f (fst t)) xs) = sort_key f (map fst xs)"
  by (induction xs) (simp_all add: map_fst_insort_key)

text \<open>The order on tagged fragments: by priority, ties by the position before the sort.\<close>

lemma insort_tagged:
  fixes x :: "EnvFragment \<times> nat"
  assumes "sorted_wrt (\<lambda>a b. Priority (fst a) < Priority (fst b) \<or>
                        (Priority (fst a) = Priority (fst b) \<and> snd a < snd b)) ys"
    and "\<forall>y\<in>set ys. snd x < snd y"
  shows "sorted_wrt (\<lambda>a b. Priority (fst a) < Priority (fst b) \<or>
                        (Priority (fst a) = Priority (fst b) \<and> snd a < snd b))
           (insort_key (\<lambda>t. Priority (fst t)) x ys)"
  using assms
proof (induction ys)
  case Nil
  then show ?case by simp
next
  case (Cons y ys)
  show ?case
  proof (cases "Priority (fst x) \<le> Priority (fst y)")
    case True
    then show ?thesis using Cons.prems by (fastforce simp: set_insort_key)
  next
    case False
    then show ?thesis using Cons by (auto simp: set_insort_key)
  qed
qed

lemma sort_tagged:
  fixes fs :: "EnvFragment list"
  shows "sorted_wrt (\<lambda>a b. Priority (fst a) < Priority (fst b) \<or>
                  (Priority (fst a) = Priority (fst b) \<and> snd a < snd b))
     (sort_key (\<lambda>t. Priority (fst t)) (zip fs [n..<n + length fs]))"
proof (induction fs arbitrary: n)
  case Nil
  then show ?case by simp
next
  case (Cons f fs)
  have z: "zip (f # fs) [n..<n + length (f # fs)] = (f, n) # zip fs [Suc n..<Suc n + length fs]"
    by (simp del: upt_Suc add: upt_conv_Cons)
  have later: "\<forall>y\<in>set (sort_key (\<lambda>t. Priority (fst t)) (zip fs [Suc n..<Suc n + length fs])).
                 snd (f, n) < snd y"
    by (auto dest!: set_zip_rightD)
  show ?case
    unfolding z sort_key_simps by (rule insort_tagged[OF Cons.IH[of "Suc n"] later])
qed

text \<open>
  C6. The sort of \<open>SortAndMerge\<close> is stable. For every priority \<open>p\<close>, the fragments of
  priority \<open>p\<close> stand after the call in the order they stood in before it. With positions
  for the identities of the fragments: the same sort, run on the fragments paired with
  their positions before the call, yields the fragments as they stand after the call, by
  ascending priority, and of two fragments with equal priority the one standing first
  after the call stood first before it.
\<close>

theorem SortAndMerge_sort_stable:
  "filter (\<lambda>f. Priority f = p) (fragments (SortAndMerge now e)) =
     filter (\<lambda>f. Priority f = p) (fragments e) \<and>
   (\<exists>ts. ts = SliceStable (\<lambda>a b. priority_less (fst a) (fst b))
                 (zip (fragments e) [0..<length (fragments e)]) \<and>
         map fst ts = fragments (SortAndMerge now e) \<and>
         (\<forall>i j. i < j \<and> j < length ts \<longrightarrow>
            Priority (fst (ts ! i)) \<le> Priority (fst (ts ! j)) \<and>
            (Priority (fst (ts ! i)) = Priority (fst (ts ! j)) \<longrightarrow> snd (ts ! i) < snd (ts ! j))))"
proof -
  let ?ts = "SliceStable (\<lambda>a b. priority_less (fst a) (fst b))
               (zip (fragments e) [0..<length (fragments e)])"
  have stable: "filter (\<lambda>f. Priority f = p) (fragments (SortAndMerge now e)) =
                filter (\<lambda>f. Priority f = p) (fragments e)"
    by (simp only: fragments_SortAndMerge sort_key_stable)
  have fst: "map fst ?ts = fragments (SortAndMerge now e)"
    by (simp add: SliceStable_tagged map_fst_sort_key fragments_SortAndMerge)
  have srt: "sorted_wrt (\<lambda>a b. Priority (fst a) < Priority (fst b) \<or>
                  (Priority (fst a) = Priority (fst b) \<and> snd a < snd b)) ?ts"
    using sort_tagged[of "fragments e" 0] by (simp add: SliceStable_tagged)
  have ord: "\<forall>i j. i < j \<and> j < length ?ts \<longrightarrow>
            Priority (fst (?ts ! i)) \<le> Priority (fst (?ts ! j)) \<and>
            (Priority (fst (?ts ! i)) = Priority (fst (?ts ! j)) \<longrightarrow> snd (?ts ! i) < snd (?ts ! j))"
  proof (intro allI impI)
    fix i j
    assume ij: "i < j \<and> j < length ?ts"
    with srt have "Priority (fst (?ts ! i)) < Priority (fst (?ts ! j)) \<or>
        (Priority (fst (?ts ! i)) = Priority (fst (?ts ! j)) \<and> snd (?ts ! i) < snd (?ts ! j))"
      by (simp add: sorted_wrt_iff_nth_less)
    then show "Priority (fst (?ts ! i)) \<le> Priority (fst (?ts ! j)) \<and>
        (Priority (fst (?ts ! i)) = Priority (fst (?ts ! j)) \<longrightarrow> snd (?ts ! i) < snd (?ts ! j))"
      by auto
  qed
  from stable fst ord show ?thesis by blast
qed

theorem SortAndMerge_sort_stable_witness:
  "fragments (SortAndMerge 1
     (new_manager\<lparr>fragments := [customFrag, innerFrag, customFrag\<lparr>Name := ''zz''\<rparr>]\<rparr>)) =
     [innerFrag, customFrag, customFrag\<lparr>Name := ''zz''\<rparr>] \<and>
   filter (\<lambda>f. Priority f = 150) (fragments (SortAndMerge 1
     (new_manager\<lparr>fragments := [customFrag, innerFrag, customFrag\<lparr>Name := ''zz''\<rparr>]\<rparr>))) =
     [customFrag, customFrag\<lparr>Name := ''zz''\<rparr>]"
proof -
  have ev: "fragments (SortAndMerge 1
     (new_manager\<lparr>fragments := [customFrag, innerFrag, customFrag\<lparr>Name := ''zz''\<rparr>]\<rparr>)) =
     [innerFrag, customFrag, customFrag\<lparr>Name := ''zz''\<rparr>]"
    by (simp add: SortAndMerge_def new_manager_def SliceStable_def priority_less_def
        innerFrag_def customFrag_def Let_def split: prod.splits)
  have "filter (\<lambda>f. Priority f = 150)
          (fragments (new_manager\<lparr>fragments := [customFrag, innerFrag, customFrag\<lparr>Name := ''zz''\<rparr>]\<rparr>))
        = [customFrag, customFrag\<lparr>Name := ''zz''\<rparr>]"
    by (simp add: new_manager_def innerFrag_def customFrag_def)
  with SortAndMerge_sort_stable[where p = 150 and now = 1
      and e = "new_manager\<lparr>fragments := [customFrag, innerFrag, customFrag\<lparr>Name := ''zz''\<rparr>]\<rparr>"]
  show ?thesis using ev by simp
qed

section \<open>The fold of SortAndMerge\<close>

lemma merge_env_fst: "fst (merge_env n kvs acc) = fst acc ++ map_of (rev kvs)"
proof (induction kvs arbitrary: acc)
  case Nil
  then show ?case by simp
next
  case (Cons kv kvs)
  obtain k v m ks where s: "kv = (k, v)" "acc = (m, ks)"
    by (cases kv, cases acc) auto
  show ?case
    by (simp add: s Cons.IH) (auto simp: map_add_def fun_eq_iff split: option.splits)
qed

lemma merge_env_snd:
  "distinct (map fst kvs) \<Longrightarrow>
   snd (merge_env n kvs acc) k =
     (if k \<in> fst ` set kvs then Some (names_at (snd acc) k @ [n]) else snd acc k)"
proof (induction kvs arbitrary: acc)
  case Nil
  then show ?case by simp
next
  case (Cons kv kvs)
  obtain k' v' m ks where s: "kv = (k', v')" "acc = (m, ks)"
    by (cases kv, cases acc) auto
  from Cons.prems have d: "distinct (map fst kvs)" and nk: "k' \<notin> fst ` set kvs"
    by (simp_all add: s)
  show ?case
    using nk by (auto simp: s Cons.IH[OF d] names_at_def)
qed

lemma map_of_rev_distinct: "distinct (map fst kvs) \<Longrightarrow> map_of (rev kvs) = map_of kvs"
  by (rule map_of_inject_set[THEN iffD2]) (simp_all add: rev_map[symmetric])

lemma has_key_dom: "has_key k f \<longleftrightarrow> map_of (Env f) k \<noteq> None"
  by (simp add: has_key_def map_of_eq_None_iff)

lemma merge_fragments_fst:
  "fst (merge_fragments fs acc) k =
     (if filter (has_key k) fs = [] then fst acc k
      else map_of (rev (Env (last (filter (has_key k) fs)))) k)"
proof (induction fs arbitrary: acc)
  case Nil
  then show ?case by simp
next
  case (Cons f fs)
  have none: "map_of (rev (Env f)) k = None \<longleftrightarrow> k \<notin> fst ` set (Env f)"
    by (simp add: map_of_eq_None_iff)
  have here: "fst (merge_env (Name f) (Env f) acc) k =
      (if has_key k f then map_of (rev (Env f)) k else fst acc k)"
    using none by (auto simp: merge_env_fst map_add_def has_key_def split: option.splits)
  show ?case
    by (simp add: Cons.IH here)
qed

lemma merge_fragments_snd:
  "\<forall>f\<in>set fs. env_ok f \<Longrightarrow>
   snd (merge_fragments fs acc) k =
     (if filter (has_key k) fs = [] then snd acc k
      else Some (names_at (snd acc) k @ map Name (filter (has_key k) fs)))"
proof (induction fs arbitrary: acc)
  case Nil
  then show ?case by simp
next
  case (Cons f fs)
  from Cons.prems have d: "distinct (map fst (Env f))" and rest: "\<forall>f\<in>set fs. env_ok f"
    by (simp_all add: env_ok_def)
  have here: "snd (merge_env (Name f) (Env f) acc) k =
      (if has_key k f then Some (names_at (snd acc) k @ [Name f]) else snd acc k)"
    by (simp add: merge_env_snd[OF d] has_key_def)
  show ?case
    by (simp add: Cons.IH[OF rest] here names_at_def)
qed

lemma SortAndMerge_fields:
  "merged (SortAndMerge now e) =
     Some (fst (merge_fragments (sort_key Priority (fragments e))
                  (case merged e of None \<Rightarrow> Map.empty | Some m \<Rightarrow> m, Map.empty)))"
  "keySources (SortAndMerge now e) =
     Some (snd (merge_fragments (sort_key Priority (fragments e))
                  (case merged e of None \<Rightarrow> Map.empty | Some m \<Rightarrow> m, Map.empty)))"
  by (simp_all add: SortAndMerge_def Let_def SliceStable_priority split: prod.splits)

lemma last_filter_keeps:
  "xs \<noteq> [] \<Longrightarrow> P (last xs) \<Longrightarrow> last (filter P xs) = last xs"
  by (cases xs rule: rev_cases) simp_all

lemma ascending_le_last:
  fixes g :: "'a \<Rightarrow> int"
  shows "sorted_wrt (\<le>) (map g xs) \<Longrightarrow> x \<in> set xs \<Longrightarrow> g x \<le> g (last xs)"
  by (induction xs) (auto split: if_splits)

lemma definers_ascending:
  "sorted_wrt (\<le>) (map Priority (filter (has_key k) (sort_key Priority fs)))"
  by (rule sorted_filter[OF sorted_sort_key])

lemma last_definer_of_ties:
  assumes ne: "filter (has_key k) (sort_key Priority fs) \<noteq> []"
  shows "last (filter (\<lambda>f. has_key k f \<and>
             Priority f = Priority (last (filter (has_key k) (sort_key Priority fs)))) fs) =
         last (filter (has_key k) (sort_key Priority fs))"
proof -
  let ?ds = "filter (has_key k) (sort_key Priority fs)"
  let ?p = "Priority (last ?ds)"
  have "filter (\<lambda>f. has_key k f \<and> Priority f = ?p) fs =
        filter (has_key k) (filter (\<lambda>f. Priority f = ?p) fs)"
    by (simp add: conj_commute)
  also have "\<dots> = filter (has_key k) (filter (\<lambda>f. Priority f = ?p) (sort_key Priority fs))"
    by (simp only: sort_key_stable)
  also have "\<dots> = filter (\<lambda>f. Priority f = ?p) ?ds"
    by (simp add: conj_commute)
  finally have "filter (\<lambda>f. has_key k f \<and> Priority f = ?p) fs = filter (\<lambda>f. Priority f = ?p) ?ds" .
  then show ?thesis
    using last_filter_keeps[OF ne, of "\<lambda>f. Priority f = ?p"] by simp
qed

text \<open>
  C1. Let every fragment hold each key once (as a Go map does) and let some fragment
  define \<open>k\<close>. After \<open>SortAndMerge\<close> the fragments stand by ascending priority (the
  stable sort of the fragments before the call), and among them the last one that
  defines \<open>k\<close> gives \<open>merged[k]\<close> its value; \<open>keySources[k]\<close> is the list of the names of
  the fragments that define \<open>k\<close>, in that order: it is not empty and its last element is
  the name of that last fragment. In terms of the fragments before the call, that
  fragment defines \<open>k\<close>, no fragment that defines \<open>k\<close> has a higher priority, and among
  the definers of its priority it is the one added last. So when a fragment \<open>f2\<close> defines
  \<open>k\<close> and every other definer has a lower priority (F1 at 10, F2 at 150), \<open>merged[k]\<close> is
  the value of \<open>f2\<close> and \<open>keySources[k]\<close> ends with the name of \<open>f2\<close>.
\<close>

theorem SortAndMerge_last_writer_wins:
  assumes ok: "\<forall>f\<in>set (fragments e). env_ok f"
    and some: "\<exists>f\<in>set (fragments e). has_key k f"
  shows "\<exists>ds last_def ns.
           ds = filter (has_key k) (fragments (SortAndMerge now e)) \<and> ds \<noteq> [] \<and>
           last_def = last ds \<and>
           merged_at (SortAndMerge now e) k = map_of (Env last_def) k \<and>
           merged_at (SortAndMerge now e) k \<noteq> None \<and>
           keySources_at (SortAndMerge now e) k = Some ns \<and>
           ns = map Name ds \<and> ns \<noteq> [] \<and> last ns = Name last_def \<and>
           fragments (SortAndMerge now e) = sort_key Priority (fragments e) \<and>
           sorted_wrt (\<le>) (map Priority (fragments (SortAndMerge now e))) \<and>
           last_def \<in> set (fragments e) \<and> has_key k last_def \<and>
           (\<forall>f\<in>set (fragments e). has_key k f \<longrightarrow> Priority f \<le> Priority last_def) \<and>
           last_def = last (filter (\<lambda>f. has_key k f \<and> Priority f = Priority last_def)
                              (fragments e)) \<and>
           (\<forall>f2\<in>set (fragments e).
              has_key k f2 \<and>
              (\<forall>f1\<in>set (fragments e). has_key k f1 \<and> f1 \<noteq> f2 \<longrightarrow> Priority f1 < Priority f2)
              \<longrightarrow> merged_at (SortAndMerge now e) k = map_of (Env f2) k \<and> last ns = Name f2)"
proof -
  let ?fs = "sort_key Priority (fragments e)"
  let ?ds = "filter (has_key k) ?fs"
  have ok': "\<forall>f\<in>set ?fs. env_ok f" using ok by simp
  from some have ne: "?ds \<noteq> []"
    by (auto simp: filter_empty_conv)
  then have "last ?ds \<in> set ?ds" by (rule last_in_set)
  then have lk: "has_key k (last ?ds)" and lok: "env_ok (last ?ds)"
    and lin: "last ?ds \<in> set (fragments e)"
    using ok' by auto
  have m: "merged_at (SortAndMerge now e) k = map_of (Env (last ?ds)) k"
    using ne lok
    by (simp add: merged_at_def SortAndMerge_fields merge_fragments_fst
        map_of_rev_distinct env_ok_def)
  have mn: "merged_at (SortAndMerge now e) k \<noteq> None"
    using lk by (simp add: m has_key_dom)
  have s: "keySources_at (SortAndMerge now e) k = Some (map Name ?ds)"
    using ne by (simp add: keySources_at_def SortAndMerge_fields merge_fragments_snd[OF ok']
        names_at_def)
  have l: "last (map Name ?ds) = Name (last ?ds)"
    using ne by (simp add: last_map)
  have asc: "sorted_wrt (\<le>) (map Priority ?fs)"
    by (rule sorted_sort_key)
  have top: "\<forall>f\<in>set (fragments e). has_key k f \<longrightarrow> Priority f \<le> Priority (last ?ds)"
  proof (intro ballI impI)
    fix f assume "f \<in> set (fragments e)" "has_key k f"
    then have "f \<in> set ?ds" by simp
    then show "Priority f \<le> Priority (last ?ds)"
      by (rule ascending_le_last[OF definers_ascending])
  qed
  have tie: "last ?ds = last (filter (\<lambda>f. has_key k f \<and> Priority f = Priority (last ?ds))
                              (fragments e))"
    by (rule last_definer_of_ties[OF ne, symmetric])
  have win: "\<forall>f2\<in>set (fragments e).
              has_key k f2 \<and>
              (\<forall>f1\<in>set (fragments e). has_key k f1 \<and> f1 \<noteq> f2 \<longrightarrow> Priority f1 < Priority f2)
              \<longrightarrow> merged_at (SortAndMerge now e) k = map_of (Env f2) k \<and>
                  last (map Name ?ds) = Name f2"
  proof (intro ballI impI)
    fix f2
    assume f2: "f2 \<in> set (fragments e)"
      and h: "has_key k f2 \<and>
        (\<forall>f1\<in>set (fragments e). has_key k f1 \<and> f1 \<noteq> f2 \<longrightarrow> Priority f1 < Priority f2)"
    have "last ?ds = f2"
    proof (rule ccontr)
      assume "last ?ds \<noteq> f2"
      with h lin lk have "Priority (last ?ds) < Priority f2" by blast
      moreover from top f2 h have "Priority f2 \<le> Priority (last ?ds)" by blast
      ultimately show False by simp
    qed
    then show "merged_at (SortAndMerge now e) k = map_of (Env f2) k \<and>
        last (map Name ?ds) = Name f2"
      using m l by simp
  qed
  have "?ds \<noteq> [] \<and>
        merged_at (SortAndMerge now e) k = map_of (Env (last ?ds)) k \<and>
        merged_at (SortAndMerge now e) k \<noteq> None \<and>
        keySources_at (SortAndMerge now e) k = Some (map Name ?ds) \<and>
        map Name ?ds \<noteq> [] \<and> last (map Name ?ds) = Name (last ?ds) \<and>
        sorted_wrt (\<le>) (map Priority ?fs) \<and>
        last ?ds \<in> set (fragments e) \<and> has_key k (last ?ds) \<and>
        (\<forall>f\<in>set (fragments e). has_key k f \<longrightarrow> Priority f \<le> Priority (last ?ds)) \<and>
        last ?ds = last (filter (\<lambda>f. has_key k f \<and> Priority f = Priority (last ?ds))
                              (fragments e)) \<and>
        (\<forall>f2\<in>set (fragments e).
              has_key k f2 \<and>
              (\<forall>f1\<in>set (fragments e). has_key k f1 \<and> f1 \<noteq> f2 \<longrightarrow> Priority f1 < Priority f2)
              \<longrightarrow> merged_at (SortAndMerge now e) k = map_of (Env f2) k \<and>
                  last (map Name ?ds) = Name f2)"
    using ne m mn s l asc lin lk top tie win by (intro conjI) simp_all
  then show ?thesis
    unfolding fragments_SortAndMerge by blast
qed

theorem SortAndMerge_last_writer_wins_witness:
  "merged_at (SortAndMerge 1 (new_manager\<lparr>fragments :=
       [customFrag\<lparr>Env := [(''LANG'', ''zh_CN.UTF-8'')]\<rparr>, systemFrag]\<rparr>)) ''LANG''
     = Some ''zh_CN.UTF-8'' \<and>
   keySources_at (SortAndMerge 1 (new_manager\<lparr>fragments :=
       [customFrag\<lparr>Env := [(''LANG'', ''zh_CN.UTF-8'')]\<rparr>, systemFrag]\<rparr>)) ''LANG''
     = Some [''system_base'', ''user_service''] \<and>
   fragments (SortAndMerge 1 (new_manager\<lparr>fragments :=
       [customFrag\<lparr>Env := [(''LANG'', ''zh_CN.UTF-8'')]\<rparr>, systemFrag]\<rparr>))
     = [systemFrag, customFrag\<lparr>Env := [(''LANG'', ''zh_CN.UTF-8'')]\<rparr>] \<and>
   Priority systemFrag = 10 \<and> Priority customFrag = 150"
proof -
  let ?e = "new_manager\<lparr>fragments :=
       [customFrag\<lparr>Env := [(''LANG'', ''zh_CN.UTF-8'')]\<rparr>, systemFrag]\<rparr>"
  have ok: "\<forall>f\<in>set (fragments ?e). env_ok f"
    by (simp add: new_manager_def env_ok_def customFrag_def systemFrag_def)
  have some: "\<exists>f\<in>set (fragments ?e). has_key ''LANG'' f"
    by (simp add: new_manager_def has_key_def customFrag_def systemFrag_def)
  have fs: "fragments (SortAndMerge 1 ?e) =
      [systemFrag, customFrag\<lparr>Env := [(''LANG'', ''zh_CN.UTF-8'')]\<rparr>]"
    by (simp add: SortAndMerge_def new_manager_def SliceStable_def priority_less_def
        systemFrag_def customFrag_def Let_def split: prod.splits)
  have ds: "filter (has_key ''LANG'') (fragments (SortAndMerge 1 ?e)) =
      [systemFrag, customFrag\<lparr>Env := [(''LANG'', ''zh_CN.UTF-8'')]\<rparr>]"
    unfolding fs by (simp add: has_key_def systemFrag_def customFrag_def)
  from SortAndMerge_last_writer_wins[OF ok some, of 1]
  obtain last_def ns where
    a: "last_def = last (filter (has_key ''LANG'') (fragments (SortAndMerge 1 ?e)))"
    and b: "merged_at (SortAndMerge 1 ?e) ''LANG'' = map_of (Env last_def) ''LANG''"
    and c: "keySources_at (SortAndMerge 1 ?e) ''LANG'' = Some ns"
    and d: "ns = map Name (filter (has_key ''LANG'') (fragments (SortAndMerge 1 ?e)))"
    by blast
  from a have ld: "last_def = customFrag\<lparr>Env := [(''LANG'', ''zh_CN.UTF-8'')]\<rparr>"
    unfolding ds by simp
  have m: "merged_at (SortAndMerge 1 ?e) ''LANG'' = Some ''zh_CN.UTF-8''"
    unfolding b ld by simp
  have n: "keySources_at (SortAndMerge 1 ?e) ''LANG'' = Some [''system_base'', ''user_service'']"
    unfolding c d ds by (simp add: systemFrag_def customFrag_def)
  have p: "Priority systemFrag = 10 \<and> Priority customFrag = 150"
    by (simp add: systemFrag_def customFrag_def)
  from m n fs p show ?thesis by blast
qed

section \<open>Merging again\<close>

lemma merge_env_reordered:
  assumes "distinct (map fst kvs)" "distinct (map fst kvs')" "set kvs = set kvs'"
  shows "merge_env n kvs acc = merge_env n kvs' acc"
proof (rule prod_eqI)
  have "map_of (rev kvs) = map_of (rev kvs')"
    using assms by (simp add: map_of_rev_distinct map_of_inject_set)
  then show "fst (merge_env n kvs acc) = fst (merge_env n kvs' acc)"
    by (simp add: merge_env_fst)
  show "snd (merge_env n kvs acc) = snd (merge_env n kvs' acc)"
    using assms by (intro ext) (simp add: merge_env_snd)
qed

lemma merge_fragments_reordered:
  "list_all2 range_reordered fs gs \<Longrightarrow> \<forall>f\<in>set fs. env_ok f \<Longrightarrow>
   merge_fragments fs acc = merge_fragments gs acc"
proof (induction fs gs arbitrary: acc rule: list_all2_induct)
  case Nil
  then show ?case by simp
next
  case (Cons f fs g gs)
  from Cons.hyps(1) have n: "Name g = Name f"
    and s: "set (Env g) = set (Env f)" and d: "distinct (map fst (Env g))"
    by (auto simp: range_reordered_def) (metis EnvFragment.select_convs(1) EnvFragment.surjective EnvFragment.update_convs(3))
  from Cons.prems have df: "distinct (map fst (Env f))" and rest: "\<forall>f\<in>set fs. env_ok f"
    by (simp_all add: env_ok_def)
  have "merge_env (Name f) (Env f) acc = merge_env (Name g) (Env g) acc"
    unfolding n by (rule merge_env_reordered[OF df d s[symmetric]])
  then show ?case
    by (simp add: Cons.IH[OF rest])
qed

lemma reordered_Priority:
  "list_all2 range_reordered fs gs \<Longrightarrow> map Priority gs = map Priority fs"
proof (induction fs gs rule: list_all2_induct)
  case Nil
  then show ?case by simp
next
  case (Cons f fs g gs)
  from Cons.hyps(1) have "g = f\<lparr>Env := Env g\<rparr>"
    by (simp add: range_reordered_def)
  then have "Priority g = Priority (f\<lparr>Env := Env g\<rparr>)" by simp
  then show ?case using Cons.IH by simp
qed

lemma merge_fragments_again:
  assumes ok: "\<forall>f\<in>set fs. env_ok f"
  shows "merge_fragments fs (fst (merge_fragments fs (m0, Map.empty)), Map.empty) =
         merge_fragments fs (m0, Map.empty)"
proof (rule prod_eqI)
  show "fst (merge_fragments fs (fst (merge_fragments fs (m0, Map.empty)), Map.empty)) =
        fst (merge_fragments fs (m0, Map.empty))"
    by (intro ext) (simp add: merge_fragments_fst)
  show "snd (merge_fragments fs (fst (merge_fragments fs (m0, Map.empty)), Map.empty)) =
        snd (merge_fragments fs (m0, Map.empty))"
    by (intro ext) (simp add: merge_fragments_snd[OF ok])
qed

lemma SortAndMerge_reordered_again:
  assumes ok: "\<forall>f\<in>set (fragments e). env_ok f"
    and re: "list_all2 range_reordered (fragments (SortAndMerge t1 e)) fs'"
  shows "merged (SortAndMerge t2 ((SortAndMerge t1 e)\<lparr>fragments := fs'\<rparr>)) =
           merged (SortAndMerge t1 e)"
    and "keySources (SortAndMerge t2 ((SortAndMerge t1 e)\<lparr>fragments := fs'\<rparr>)) =
           keySources (SortAndMerge t1 e)"
    and "fragments (SortAndMerge t2 ((SortAndMerge t1 e)\<lparr>fragments := fs'\<rparr>)) = fs'"
proof -
  let ?fs = "sort_key Priority (fragments e)"
  let ?m0 = "case merged e of None \<Rightarrow> Map.empty | Some m \<Rightarrow> m"
  from re have re': "list_all2 range_reordered ?fs fs'"
    by (simp add: fragments_SortAndMerge)
  have ok': "\<forall>f\<in>set ?fs. env_ok f" using ok by simp
  have "map Priority fs' = map Priority ?fs"
    by (rule reordered_Priority[OF re'])
  then have "sort_key Priority fs' = fs'"
    using sorted_sort_key[of Priority "fragments e"] by (intro sort_key_id_if_sorted) simp
  then have frs: "sort_key Priority (fragments ((SortAndMerge t1 e)\<lparr>fragments := fs'\<rparr>)) = fs'"
    by simp
  have again: "merge_fragments fs' (fst (merge_fragments ?fs (?m0, Map.empty)), Map.empty) =
               merge_fragments ?fs (?m0, Map.empty)"
    using merge_fragments_reordered[OF re' ok', symmetric] merge_fragments_again[OF ok']
    by simp
  show "merged (SortAndMerge t2 ((SortAndMerge t1 e)\<lparr>fragments := fs'\<rparr>)) =
           merged (SortAndMerge t1 e)"
    by (simp only: SortAndMerge_fields frs)
      (simp add: SortAndMerge_fields again)
  show "keySources (SortAndMerge t2 ((SortAndMerge t1 e)\<lparr>fragments := fs'\<rparr>)) =
           keySources (SortAndMerge t1 e)"
    by (simp only: SortAndMerge_fields frs)
      (simp add: SortAndMerge_fields again)
  show "fragments (SortAndMerge t2 ((SortAndMerge t1 e)\<lparr>fragments := fs'\<rparr>)) = fs'"
    by (simp only: fragments_SortAndMerge frs)
qed

lemma range_reordered_refl: "\<forall>f\<in>set fs. env_ok f \<Longrightarrow> list_all2 range_reordered fs fs"
  by (simp add: list_all2_same range_reordered_def env_ok_def)

text \<open>
  C5. Let every fragment hold each key once. A second \<open>SortAndMerge\<close> right after a first
  one leaves \<open>merged\<close>, \<open>keySources\<close> and the order of the fragments as the first call left
  them (only the time stamp is new). The same holds when the second call visits the
  entries of each fragment's \<open>Env\<close> in another order than the first: the result does not
  depend on the iteration order of the maps.
\<close>

theorem SortAndMerge_idempotent:
  assumes ok: "\<forall>f\<in>set (fragments e). env_ok f"
    and re: "list_all2 range_reordered (fragments (SortAndMerge t1 e)) fs'"
  shows "merged (SortAndMerge t2 (SortAndMerge t1 e)) = merged (SortAndMerge t1 e) \<and>
         keySources (SortAndMerge t2 (SortAndMerge t1 e)) = keySources (SortAndMerge t1 e) \<and>
         fragments (SortAndMerge t2 (SortAndMerge t1 e)) = fragments (SortAndMerge t1 e) \<and>
         merged (SortAndMerge t2 ((SortAndMerge t1 e)\<lparr>fragments := fs'\<rparr>)) =
           merged (SortAndMerge t1 e) \<and>
         keySources (SortAndMerge t2 ((SortAndMerge t1 e)\<lparr>fragments := fs'\<rparr>)) =
           keySources (SortAndMerge t1 e)"
proof -
  have ok1: "\<forall>f\<in>set (fragments (SortAndMerge t1 e)). env_ok f"
    using ok by (simp add: fragments_SortAndMerge)
  have same: "(SortAndMerge t1 e)\<lparr>fragments := fragments (SortAndMerge t1 e)\<rparr> = SortAndMerge t1 e"
    by simp
  show ?thesis
    using SortAndMerge_reordered_again[OF ok range_reordered_refl[OF ok1], of t2]
      SortAndMerge_reordered_again[OF ok re, of t2]
    by (simp only: same)
qed

theorem SortAndMerge_idempotent_witness:
  "merged (SortAndMerge 2 (SortAndMerge 1 example_manager)) =
     merged (SortAndMerge 1 example_manager) \<and>
   keySources (SortAndMerge 2 (SortAndMerge 1 example_manager)) =
     keySources (SortAndMerge 1 example_manager) \<and>
   merged (SortAndMerge 2 ((SortAndMerge 1 example_manager)\<lparr>fragments :=
       [systemFrag, innerFrag\<lparr>Env := rev (Env innerFrag)\<rparr>, customFrag]\<rparr>)) =
     merged (SortAndMerge 1 example_manager) \<and>
   keySources (SortAndMerge 2 ((SortAndMerge 1 example_manager)\<lparr>fragments :=
       [systemFrag, innerFrag\<lparr>Env := rev (Env innerFrag)\<rparr>, customFrag]\<rparr>)) =
     keySources (SortAndMerge 1 example_manager) \<and>
   keySources_at (SortAndMerge 1 example_manager) ''LANG'' =
     Some [''system_base'', ''internal_service'']"
proof -
  have ok: "\<forall>f\<in>set (fragments example_manager). env_ok f"
    by (simp add: example_manager_def new_manager_def env_ok_def
        systemFrag_def innerFrag_def customFrag_def)
  have re: "list_all2 range_reordered (fragments (SortAndMerge 1 example_manager))
      [systemFrag, innerFrag\<lparr>Env := rev (Env innerFrag)\<rparr>, customFrag]"
    unfolding example_sorted_fragments
    by (simp add: range_reordered_def systemFrag_def innerFrag_def customFrag_def) auto
  have ks: "keySources_at (SortAndMerge 1 example_manager) ''LANG'' =
     Some [''system_base'', ''internal_service'']"
    by (simp add: keySources_at_def SortAndMerge_def example_manager_def new_manager_def
        SliceStable_def priority_less_def systemFrag_def innerFrag_def customFrag_def Let_def
        names_at_def split: prod.splits)
  from SortAndMerge_idempotent[OF ok re, of 2] ks
  show ?thesis by simp
qed

section \<open>What a merge keeps from the merge before\<close>

lemma SortAndMerge_merged_dom:
  "dom (the (merged (SortAndMerge now e))) =
     dom (case merged e of None \<Rightarrow> Map.empty | Some m \<Rightarrow> m) \<union>
     {k. \<exists>f\<in>set (fragments e). has_key k f}"
proof -
  have "k \<in> dom (the (merged (SortAndMerge now e))) \<longleftrightarrow>
        k \<in> dom (case merged e of None \<Rightarrow> Map.empty | Some m \<Rightarrow> m) \<or>
        (\<exists>f\<in>set (fragments e). has_key k f)" for k
  proof (cases "filter (has_key k) (sort_key Priority (fragments e)) = []")
    case True
    then show ?thesis
      by (auto simp: SortAndMerge_fields merge_fragments_fst filter_empty_conv)
  next
    case False
    then have "last (filter (has_key k) (sort_key Priority (fragments e)))
        \<in> set (filter (has_key k) (sort_key Priority (fragments e)))"
      by (rule last_in_set)
    then have "has_key k (last (filter (has_key k) (sort_key Priority (fragments e))))"
      by simp
    then have "map_of (rev (Env (last (filter (has_key k) (sort_key Priority (fragments e)))))) k
        \<noteq> None"
      by (simp add: has_key_def map_of_eq_None_iff)
    moreover from False have "\<exists>f\<in>set (fragments e). has_key k f"
      by (auto simp: filter_empty_conv)
    ultimately show ?thesis
      using False by (auto simp: SortAndMerge_fields merge_fragments_fst)
  qed
  then show ?thesis by blast
qed

lemma reloaded_fragments: "fragments reloaded_manager = [customFrag]"
  by (simp add: reloaded_manager_def reload_history_def FeedFile_def validateFragment_def
      int_at_def example_SystemEnv_def LoadAllYaml_def fragments_SortAndMerge
      systemFrag_def new_manager_def)

lemma reloaded_merged:
  "merged_at reloaded_manager ''PATH'' = Some ''/usr/local/bin:/usr/bin''"
  by (simp add: reloaded_manager_def reload_history_def FeedFile_def validateFragment_def
      int_at_def example_SystemEnv_def LoadAllYaml_def SortAndMerge_def SliceStable_def
      priority_less_def Let_def merged_at_def systemFrag_def customFrag_def new_manager_def
      split: prod.splits)

lemma reloaded_keySources: "keySources_at reloaded_manager ''PATH'' = None"
  by (simp add: reloaded_manager_def reload_history_def FeedFile_def validateFragment_def
      int_at_def example_SystemEnv_def LoadAllYaml_def SortAndMerge_def SliceStable_def
      priority_less_def Let_def keySources_at_def names_at_def systemFrag_def customFrag_def
      new_manager_def split: prod.splits)

text \<open>
  C3. A merge is to start from an empty \<open>merged\<close> and an empty \<open>keySources\<close>, so that
  afterwards \<open>merged\<close> holds exactly the keys of the current fragments. \<open>SortAndMerge\<close>
  creates \<open>keySources\<close> anew but creates \<open>merged\<close> only when it is \<open>nil\<close>: after a merge
  over the system fragment, loading a saved state that holds the custom fragment alone
  (\<open>LoadAllYaml\<close> replaces the fragments and runs the merge) leaves the key \<open>PATH\<close> of the
  system fragment in \<open>merged\<close>, although no current fragment defines it and \<open>keySources\<close>
  has no entry for it.
\<close>

theorem SortAndMerge_keeps_stale_keys:
  "fragments reloaded_manager = [customFrag] \<and>
   list_all (\<lambda>f. \<not> has_key ''PATH'' f) (fragments reloaded_manager) \<and>
   merged_at reloaded_manager ''PATH'' = Some ''/usr/local/bin:/usr/bin'' \<and>
   keySources_at reloaded_manager ''PATH'' = None"
  using reloaded_fragments reloaded_merged reloaded_keySources
  by (simp add: has_key_def customFrag_def)

section \<open>The round trip\<close>

lemma round_trip_merged:
  assumes ok: "\<forall>f\<in>set (fragments e0). env_ok f" and fresh: "merged e0 = None"
  shows "\<exists>e'. round_trip rfc3339 parse t1 t2 (SortAndMerge t0 e0) = Inr e' \<and>
           merged e' = merged (SortAndMerge t0 e0) \<and>
           keySources e' = keySources (SortAndMerge t0 e0)"
proof -
  let ?e = "SortAndMerge t0 e0"
  let ?d = "\<lparr>Sorted = sorted ?e, CTime = rfc3339 (ctime ?e), Fragments = fragments ?e\<rparr>"
  obtain l where l: "LoadAllYaml parse t1 (Document ?d) new_manager = (None, SortAndMerge t1 l)"
    and lf: "fragments l = fragments ?e" and lm: "merged l = None"
    by (cases "parse (rfc3339 (ctime ?e))")
      (simp_all add: LoadAllYaml_def Let_def new_manager_def)
  have srt: "sort_key Priority (sort_key Priority (fragments e0)) = sort_key Priority (fragments e0)"
    by (intro sort_key_id_if_sorted sorted_sort_key)
  have m1: "merged (SortAndMerge t1 l) = merged ?e"
    and k1: "keySources (SortAndMerge t1 l) = keySources ?e"
    and f1: "fragments (SortAndMerge t1 l) = fragments ?e"
    by (simp_all add: SortAndMerge_fields fragments_SortAndMerge lf lm fresh srt)
  have ok1: "\<forall>f\<in>set (fragments l). env_ok f"
    unfolding lf fragments_SortAndMerge using ok by simp
  have ok2: "\<forall>f\<in>set (fragments (SortAndMerge t1 l)). env_ok f"
    using ok1 by (simp add: fragments_SortAndMerge)
  have same: "(SortAndMerge t1 l)\<lparr>fragments := fragments (SortAndMerge t1 l)\<rparr> = SortAndMerge t1 l"
    by simp
  have "merged (SortAndMerge t2 (SortAndMerge t1 l)) = merged (SortAndMerge t1 l)"
    and "keySources (SortAndMerge t2 (SortAndMerge t1 l)) = keySources (SortAndMerge t1 l)"
    using SortAndMerge_reordered_again[OF ok1 range_reordered_refl[OF ok2], of t2]
    by (simp_all only: same)
  then show ?thesis
    by (simp add: round_trip_def SaveAllYaml_def Let_def l m1 k1)
qed

text \<open>
  C9. Saving a merged manager, restoring into a fresh one and merging again is to give
  back the \<open>merged\<close> and \<open>keySources\<close> of the original. For the manager above, whose
  \<open>merged\<close> still holds \<open>PATH\<close> from the merge before the load, the round trip succeeds but
  the fresh manager has no \<open>PATH\<close>: the saved document holds the fragments only, and the
  original \<open>merged\<close> was not computed from them alone.
\<close>

theorem round_trip_loses_stale_key:
  "sorted reloaded_manager \<and>
   merged_at reloaded_manager ''PATH'' = Some ''/usr/local/bin:/usr/bin'' \<and>
   (case round_trip (\<lambda>t. ''T'') (\<lambda>s. None) 3 4 reloaded_manager of
      Inl err \<Rightarrow> False
    | Inr e' \<Rightarrow> merged_at e' ''PATH'' = None \<and> merged e' \<noteq> merged reloaded_manager)"
proof -
  have srt: "sorted reloaded_manager"
    by (simp add: reloaded_manager_def reload_history_def LoadAllYaml_def sorted_SortAndMerge)
  have ct: "ctime reloaded_manager = 2"
    by (simp add: reloaded_manager_def reload_history_def LoadAllYaml_def SortAndMerge_def
        Let_def split: prod.splits)
  let ?l = "new_manager\<lparr>fragments := [customFrag], sorted := True\<rparr>"
  have rt: "round_trip (\<lambda>t. ''T'') (\<lambda>s. None) 3 4 reloaded_manager =
      Inr (SortAndMerge 4 (SortAndMerge 3 ?l))"
    by (simp add: round_trip_def SaveAllYaml_def LoadAllYaml_def Let_def srt
        reloaded_fragments)
  have none: "merged_at (SortAndMerge 4 (SortAndMerge 3 ?l)) ''PATH'' = None"
    by (simp add: SortAndMerge_def SliceStable_def priority_less_def Let_def merged_at_def
        customFrag_def new_manager_def split: prod.splits)
  have "merged (SortAndMerge 4 (SortAndMerge 3 ?l)) \<noteq> merged reloaded_manager"
  proof
    assume "merged (SortAndMerge 4 (SortAndMerge 3 ?l)) = merged reloaded_manager"
    then have "merged_at (SortAndMerge 4 (SortAndMerge 3 ?l)) ''PATH'' =
        merged_at reloaded_manager ''PATH''"
      by (simp add: merged_at_def)
    with none reloaded_merged show False by simp
  qed
  with srt reloaded_merged rt none show ?thesis by simp
qed

section \<open>The scripts BuildPsh emits\<close>

lemma script_lines_filter:
  "script_lines tag scs = concat (map (\<lambda>sc. Data sc @ nl) (filter (\<lambda>sc. Sh sc = tag) scs))"
  by (induction tag scs rule: script_lines.induct) simp_all

text \<open>
  C4. \<open>BuildPsh\<close> is to emit the body of every script tagged for PowerShell. The type
  \<open>Script\<close> documents the tag \<open>powershell\<close>, the sample file and the example program tag
  their PowerShell scripts \<open>pwsh\<close>; \<open>BuildPsh\<close> emits the scripts tagged \<open>pw\<close>. For the custom
  fragment of the example program (one \<open>bash\<close> and one \<open>pwsh\<close> script) the file holds the
  time stamp, the fragment header and the two assignments, and no script body; with the
  script tagged \<open>powershell\<close> the file is the same.
\<close>

theorem BuildPsh_drops_documented_tags:
  "BuildPsh (\<lambda>t. ''T'') True (SortAndMerge 1 (new_manager\<lparr>fragments := [customFrag]\<rparr>)) =
     Inr (''$Env:ENV_CTIME = '' @ dq @ ''T'' @ dq @ nl
          @ ''# --- Fragment: user_service ---'' @ nl
          @ ''$Env:APP_HOME = '' @ dq @ ''/home/user/app'' @ dq @ nl
          @ ''$Env:DEBUG = '' @ dq @ ''true'' @ dq @ nl
          @ nl) \<and>
   BuildPsh (\<lambda>t. ''T'') True (SortAndMerge 1 (new_manager\<lparr>fragments :=
       [customFrag\<lparr>Script := [\<lparr>Sh = ''powershell'', Data = ''Write-Host hello''\<rparr>]\<rparr>]\<rparr>)) =
     BuildPsh (\<lambda>t. ''T'') True (SortAndMerge 1 (new_manager\<lparr>fragments := [customFrag]\<rparr>)) \<and>
   Sh (Script customFrag ! 1) = ''pwsh''"
  by (simp add: BuildPsh_def sorted_SortAndMerge fragments_SortAndMerge fragment_header_def
      customFrag_def new_manager_def)

end
